theory Spec2Isabelle
  imports Main "HOL-Library.Word" "HOL-Library.Sublist"
begin

section \<open>Data model\<close>

text \<open>
  Go's \<^verbatim>\<open>int64\<close>. The code only compares generations (\<^verbatim>\<open>>\<close>, \<^verbatim>\<open>==\<close>), so the signed
  order \<open><s\<close> of 64-bit words is all that is needed.
\<close>

type_synonym int64 = "64 word"

text \<open>\<^verbatim>\<open>schema.GroupVersion\<close> and \<^verbatim>\<open>schema.GroupVersionKind\<close>.\<close>

record GroupVersion =
  gvGroup :: string
  gvVersion :: string

record GroupVersionKind =
  gvkGroup :: string
  gvkVersion :: string
  gvkKind :: string

text \<open>\<^verbatim>\<open>corev1.ObjectReference\<close>: seven string fields, compared by Go's struct \<^verbatim>\<open>==\<close>.\<close>

record ObjectReference =
  Kind :: string
  Namespace :: string
  Name :: string
  UID :: string
  APIVersion :: string
  ResourceVersion :: string
  FieldPath :: string

text \<open>\<^verbatim>\<open>ManagedChild\<close> (types.go).\<close>

record ManagedChild =
  ObjectReference :: ObjectReference
  ObservedGeneration :: int64

text \<open>\<^verbatim>\<open>Result\<close> (types.go).\<close>

record Result =
  Pruned :: "string list"
  Skipped :: "string list"

text \<open>
  A \<^verbatim>\<open>client.Object\<close> as far as the code looks at it: the dynamic Go type of the value (what
  the scheme resolves to kinds) and the metadata read by \<^verbatim>\<open>GetNamespace\<close>, \<^verbatim>\<open>GetName\<close>,
  \<^verbatim>\<open>GetUID\<close>.
\<close>

record Object =
  GoType :: string
  GetNamespace :: string
  GetName :: string
  GetUID :: string

text \<open>
  What \<^verbatim>\<open>scheme.New\<close> hands back is a \<^verbatim>\<open>runtime.Object\<close>; the type assertion
  \<^verbatim>\<open>obj.(client.Object)\<close> may fail on it.
\<close>

datatype RuntimeObject = ClientObject Object | NotClientObject

text \<open>The owner is read through \<^verbatim>\<open>GetGeneration\<close> only.\<close>

record Owner =
  GetGeneration :: int64

text \<open>
  Go \<^verbatim>\<open>error\<close> values. \<^verbatim>\<open>fmt.Errorf(format, args...)\<close> is kept as the format string with its
  arguments (an \<open>ArgError\<close> argument is the one formatted by \<^verbatim>\<open>%w\<close>), \<^verbatim>\<open>errors.Join\<close> as the
  list it joins, and an error produced by a collaborator as an opaque message.
\<close>

datatype error =
    Opaque string
  | Errorf string "fmtarg list"
  | Join "error list"
and fmtarg =
    ArgString string
  | ArgGVK GroupVersionKind
  | ArgObjectKey string string
  | ArgError error

subsection \<open>Collaborators\<close>

text \<open>
  The cluster and whatever else the callbacks act on is a state of type \<open>'w\<close>, threaded
  through every call that can have an effect: \<^verbatim>\<open>client.Delete\<close>, the error handler and the
  status callback.
\<close>

record 'w Client =
  Delete :: "Object \<Rightarrow> 'w \<Rightarrow> error option \<times> 'w"

record Scheme =
  ObjectKinds :: "Object \<Rightarrow> error + GroupVersionKind list"
  New :: "GroupVersionKind \<Rightarrow> error + RuntimeObject"

text \<open>
  Functions of the imported packages that the code calls: \<^verbatim>\<open>apierrors.IsNotFound\<close>,
  \<^verbatim>\<open>schema.ParseGroupVersion\<close> and \<^verbatim>\<open>GroupVersion.String\<close>.
\<close>

record Imports =
  IsNotFound :: "error \<Rightarrow> bool"
  ParseGroupVersion :: "string \<Rightarrow> error + GroupVersion"
  GroupVersionString :: "GroupVersion \<Rightarrow> string"

type_synonym 'w ErrorHandlerFunc = "error \<Rightarrow> Object \<Rightarrow> 'w \<Rightarrow> error option \<times> 'w"

text \<open>
  The \<^verbatim>\<open>Pruner\<close> struct (pruner.go). \<open>owner\<close> and \<open>children\<close> are pointers into the caller's
  object: the caller changes what they point to by updating the field between calls, and
  reads the ledger back from \<open>children\<close>. A nil \<^verbatim>\<open>*runtime.Scheme\<close> is \<open>None\<close>.
\<close>

record 'w Pruner =
  client :: "'w Client"
  scheme :: "Scheme option"
  dryRun :: bool
  errorHandler :: "'w ErrorHandlerFunc"
  owner :: Owner
  children :: "ManagedChild list"
  desiredRefs :: "string set"
  result :: Result
  lastAppliedGen :: int64

type_synonym 'w Option = "'w Pruner \<Rightarrow> 'w Pruner"

section \<open>Operations\<close>

subsection \<open>options.go\<close>

definition WithScheme :: "Scheme option \<Rightarrow> 'w Option" where
  "WithScheme s = (\<lambda>p. p\<lparr>scheme := s\<rparr>)"

definition WithErrorHandler :: "'w ErrorHandlerFunc \<Rightarrow> 'w Option" where
  "WithErrorHandler handler = (\<lambda>p. p\<lparr>errorHandler := handler\<rparr>)"

definition defaultErrorHandler :: "'w ErrorHandlerFunc" where
  "defaultErrorHandler err obj w =
     (Some (Errorf ''failed to delete %s: %w''
              [ArgObjectKey (GetNamespace obj) (GetName obj), ArgError err]), w)"

subsection \<open>pruner.go\<close>

text \<open>\<^verbatim>\<open>getLastAppliedGeneration\<close>: the loop is a left fold starting from \<^verbatim>\<open>int64(0)\<close>.\<close>

definition maxGenStep :: "int64 \<Rightarrow> ManagedChild \<Rightarrow> int64" where
  "maxGenStep maxGen child =
     (if maxGen <s ObservedGeneration child then ObservedGeneration child else maxGen)"

definition getLastAppliedGeneration :: "ManagedChild list \<Rightarrow> int64 \<Rightarrow> int64" where
  "getLastAppliedGeneration cs currentGen =
     (if length cs = 0 then 0
      else let maxGen = foldl maxGenStep 0 cs
           in if maxGen = currentGen then currentGen else maxGen)"

text \<open>
  \<^verbatim>\<open>upsertChild\<close>: the index loop stops at the first entry whose reference is \<^verbatim>\<open>==\<close> to \<open>ref\<close>
  and overwrites its generation; falling off the end appends.
\<close>

fun upsertChild :: "ManagedChild list \<Rightarrow> ObjectReference \<Rightarrow> int64 \<Rightarrow> ManagedChild list" where
  "upsertChild [] ref observedGeneration =
     [\<lparr>ObjectReference = ref, ObservedGeneration = observedGeneration\<rparr>]"
| "upsertChild (c # cs) ref observedGeneration =
     (if ObjectReference c = ref then c\<lparr>ObservedGeneration := observedGeneration\<rparr> # cs
      else c # upsertChild cs ref observedGeneration)"

definition makeRefKey :: "ObjectReference \<Rightarrow> string" where
  "makeRefKey ref =
     APIVersion ref @ ''/'' @ Kind ref @ ''/'' @ Namespace ref @ ''/'' @ Name ref"

definition formatObjectReference :: "ObjectReference \<Rightarrow> string" where
  "formatObjectReference ref =
     (if Namespace ref \<noteq> '''' then Kind ref @ '' '' @ Namespace ref @ ''/'' @ Name ref
      else Kind ref @ '' '' @ Name ref)"

definition getGVK :: "'w Pruner \<Rightarrow> Object \<Rightarrow> error + GroupVersionKind" where
  "getGVK p obj =
     (case scheme p of
        None \<Rightarrow> Inl (Errorf ''scheme is required but not set'' [])
      | Some s \<Rightarrow>
          (case ObjectKinds s obj of
             Inl err \<Rightarrow> Inl (Errorf ''failed to get GVK: %w'' [ArgError err])
           | Inr gvks \<Rightarrow>
               (case gvks of
                  [] \<Rightarrow> Inl (Errorf ''no GVK found for object'' [])
                | gvk # _ \<Rightarrow> Inr gvk)))"

definition makeObjectReference :: "Imports \<Rightarrow> 'w Pruner \<Rightarrow> Object \<Rightarrow> error + ObjectReference" where
  "makeObjectReference k p obj =
     (case getGVK p obj of
        Inl err \<Rightarrow> Inl err
      | Inr gvk \<Rightarrow>
          Inr \<lparr>Kind = gvkKind gvk,
               Namespace = GetNamespace obj,
               Name = GetName obj,
               UID = GetUID obj,
               APIVersion =
                 GroupVersionString k \<lparr>gvGroup = gvkGroup gvk, gvVersion = gvkVersion gvk\<rparr>,
               ResourceVersion = '''',
               FieldPath = ''''\<rparr>)"

text \<open>
  \<^verbatim>\<open>objectFromReference\<close>. With a nil scheme \<^verbatim>\<open>p.scheme.New\<close> dereferences a nil pointer: the
  panic is the outer \<open>None\<close>. \<^verbatim>\<open>SetName\<close> and \<^verbatim>\<open>SetNamespace\<close> overwrite the metadata of the
  fresh object.
\<close>

definition objectFromReference :: "Imports \<Rightarrow> 'w Pruner \<Rightarrow> ObjectReference \<Rightarrow> (error + Object) option" where
  "objectFromReference k p ref =
     (case ParseGroupVersion k (APIVersion ref) of
        Inl err \<Rightarrow> Some (Inl (Errorf ''invalid APIVersion in reference: %w'' [ArgError err]))
      | Inr gv \<Rightarrow>
          (let gvk = \<lparr>gvkGroup = gvGroup gv, gvkVersion = gvVersion gv, gvkKind = Kind ref\<rparr>
           in case scheme p of
                None \<Rightarrow> None
              | Some s \<Rightarrow>
                  (case New s gvk of
                     Inl err \<Rightarrow>
                       Some (Inl (Errorf ''failed to create object for GVK %s: %w''
                                    [ArgGVK gvk, ArgError err]))
                   | Inr NotClientObject \<Rightarrow>
                       Some (Inl (Errorf ''object does not implement client.Object'' []))
                   | Inr (ClientObject clientObj) \<Rightarrow>
                       Some (Inr (clientObj\<lparr>GetName := Name ref,
                                             GetNamespace := Namespace ref\<rparr>)))))"

text \<open>\<^verbatim>\<open>deleteResource\<close>: a not-found error of \<^verbatim>\<open>client.Delete\<close> is turned into success.\<close>

definition deleteResource :: "Imports \<Rightarrow> 'w Pruner \<Rightarrow> Object \<Rightarrow> 'w \<Rightarrow> error option \<times> 'w" where
  "deleteResource k p obj w =
     (case Delete (client p) obj w of
        (Some err, w') \<Rightarrow> (if IsNotFound k err then (None, w') else (Some err, w'))
      | (None, w') \<Rightarrow> (None, w'))"

text \<open>
  The variables of the loop of \<^verbatim>\<open>pruneStaleResources\<close>: the error slice, the new ledger, the
  result behind the \<^verbatim>\<open>*Result\<close> pointer, and the state of the outside world.
\<close>

record 'w PruneLoop =
  pruneErrors :: "error list"
  newChildren :: "ManagedChild list"
  loopResult :: Result
  world :: 'w

text \<open>One iteration of the loop body; \<open>None\<close> is the panic of \<open>objectFromReference\<close>.\<close>

definition pruneChild ::
  "Imports \<Rightarrow> 'w Pruner \<Rightarrow> string set \<Rightarrow> int64 \<Rightarrow> 'w PruneLoop \<Rightarrow> ManagedChild \<Rightarrow> 'w PruneLoop option" where
  "pruneChild k p desired lastGen st child =
     (let childKey = makeRefKey (ObjectReference child) in
      if childKey \<in> desired then
        Some (st\<lparr>newChildren := newChildren st @ [child]\<rparr>)
      else if lastGen <s ObservedGeneration child then
        Some (st\<lparr>newChildren := newChildren st @ [child]\<rparr>)
      else
        (case objectFromReference k p (ObjectReference child) of
           None \<Rightarrow> None
         | Some (Inl err) \<Rightarrow>
             (let refStr = formatObjectReference (ObjectReference child) in
              Some (st\<lparr>pruneErrors := pruneErrors st @
                 [Errorf ''failed to create object from reference %s: %w''
                    [ArgString refStr, ArgError err]]\<rparr>))
         | Some (Inr obj) \<Rightarrow>
             (let refStr = formatObjectReference (ObjectReference child) in
              if dryRun p then
                Some (st\<lparr>loopResult := (loopResult st)\<lparr>Skipped := Skipped (loopResult st) @ [refStr]\<rparr>\<rparr>)
              else
                (case deleteResource k p obj (world st) of
                   (Some err, w1) \<Rightarrow>
                     (case errorHandler p err obj w1 of
                        (Some handledErr, w2) \<Rightarrow>
                          Some (st\<lparr>pruneErrors := pruneErrors st @ [handledErr],
                                   newChildren := newChildren st @ [child],
                                   world := w2\<rparr>)
                      | (None, w2) \<Rightarrow>
                          Some (st\<lparr>loopResult := (loopResult st)\<lparr>Pruned := Pruned (loopResult st) @ [refStr]\<rparr>,
                                   world := w2\<rparr>))
                 | (None, w1) \<Rightarrow>
                     Some (st\<lparr>loopResult := (loopResult st)\<lparr>Pruned := Pruned (loopResult st) @ [refStr]\<rparr>,
                              world := w1\<rparr>)))))"

fun pruneLoop ::
  "Imports \<Rightarrow> 'w Pruner \<Rightarrow> string set \<Rightarrow> int64 \<Rightarrow> 'w PruneLoop \<Rightarrow> ManagedChild list \<Rightarrow> 'w PruneLoop option" where
  "pruneLoop k p desired lastGen st [] = Some st"
| "pruneLoop k p desired lastGen st (child # rest) =
     (case pruneChild k p desired lastGen st child of
        None \<Rightarrow> None
      | Some st' \<Rightarrow> pruneLoop k p desired lastGen st' rest)"

text \<open>
  \<^verbatim>\<open>pruneStaleResources\<close>: returns the errors, and with them what it wrote through its
  pointer arguments (\<^verbatim>\<open>*children = newChildren\<close>, the result) and the world it left.
\<close>

definition pruneStaleResources ::
  "Imports \<Rightarrow> 'w Pruner \<Rightarrow> ManagedChild list \<Rightarrow> string set \<Rightarrow> int64 \<Rightarrow> Result \<Rightarrow> 'w
     \<Rightarrow> (error list \<times> ManagedChild list \<times> Result \<times> 'w) option" where
  "pruneStaleResources k p cs desired lastGen res w =
     (case pruneLoop k p desired lastGen
             \<lparr>pruneErrors = [], newChildren = [], loopResult = res, world = w\<rparr> cs of
        None \<Rightarrow> None
      | Some st \<Rightarrow> Some (pruneErrors st, newChildren st, loopResult st, world st))"

text \<open>\<^verbatim>\<open>NewPruner\<close>: the baseline is computed before the options run.\<close>

definition NewPruner :: "'w Client \<Rightarrow> Owner \<Rightarrow> ManagedChild list \<Rightarrow> 'w Option list \<Rightarrow> 'w Pruner" where
  "NewPruner c own cs opts =
     (let p = \<lparr>client = c,
               scheme = None,
               dryRun = False,
               errorHandler = defaultErrorHandler,
               owner = own,
               children = cs,
               desiredRefs = {},
               result = \<lparr>Pruned = [], Skipped = []\<rparr>,
               lastAppliedGen = getLastAppliedGeneration cs (GetGeneration own)\<rparr>
      in foldl (\<lambda>q opt. opt q) p opts)"

text \<open>\<^verbatim>\<open>MarkReconciled\<close>: the returned error and the pruner as the call leaves it.\<close>

definition MarkReconciled :: "Imports \<Rightarrow> 'w Pruner \<Rightarrow> Object \<Rightarrow> error option \<times> 'w Pruner" where
  "MarkReconciled k p obj =
     (if GetUID obj = '''' then
        (Some (Errorf ''object %s/%s must have a UID (has it been created in the cluster?)''
                 [ArgString (GetNamespace obj), ArgString (GetName obj)]), p)
      else
        (case makeObjectReference k p obj of
           Inl err \<Rightarrow>
             (Some (Errorf ''failed to generate reference for object: %w'' [ArgError err]), p)
         | Inr ref \<Rightarrow>
             (let refKey = makeRefKey ref;
                  p1 = p\<lparr>desiredRefs := insert refKey (desiredRefs p)\<rparr>;
                  currentGen = GetGeneration (owner p1)
              in (None, p1\<lparr>children := upsertChild (children p1) ref currentGen\<rparr>))))"

text \<open>
  \<^verbatim>\<open>Prune\<close>: the returned pair, the pruner and the world as the call leaves them; \<open>None\<close> when
  the loop panicked. \<open>updateStatus\<close> is the caller's callback. \<open>finishPrune\<close> is the tail of
  the function (\<^verbatim>\<open>// Success - update status\<close>), reached both when nothing was pruned and
  when pruning left no error.
\<close>

definition finishPrune ::
  "'w Pruner \<Rightarrow> ('w \<Rightarrow> error option \<times> 'w) \<Rightarrow> 'w \<Rightarrow> (Result \<times> error option) \<times> 'w Pruner \<times> 'w" where
  "finishPrune p updateStatus w =
     (case updateStatus w of
        (Some err, w') \<Rightarrow>
          ((result p, Some (Errorf ''failed to update status after successful reconcile: %w''
                              [ArgError err])), p, w')
      | (None, w') \<Rightarrow> ((result p, None), p, w'))"

definition Prune ::
  "Imports \<Rightarrow> 'w Pruner \<Rightarrow> ('w \<Rightarrow> error option \<times> 'w) \<Rightarrow> 'w
     \<Rightarrow> ((Result \<times> error option) \<times> 'w Pruner \<times> 'w) option" where
  "Prune k p updateStatus w =
     (let currentGen = GetGeneration (owner p) in
      if lastAppliedGen p <s currentGen then
        (case pruneStaleResources k p (children p) (desiredRefs p) (lastAppliedGen p) (result p) w of
           None \<Rightarrow> None
         | Some (errs, cs', res', w1) \<Rightarrow>
             (let p1 = p\<lparr>children := cs', result := res'\<rparr> in
              if length errs > 0 then
                (let err = Join errs in
                 case updateStatus w1 of
                   (Some updateErr, w2) \<Rightarrow>
                     Some ((result p1,
                            Some (Errorf ''failed to update status after prune errors: %w''
                                    [ArgError updateErr])), p1, w2)
                 | (None, w2) \<Rightarrow> Some ((result p1, Some err), p1, w2))
              else Some (finishPrune p1 updateStatus w1)))
      else Some (finishPrune p updateStatus w))"

text \<open>
  Modelled from the spec: the option that sets the dry-run flag (section 6, "Dry-run flag
  (configuration option)"). The \<^verbatim>\<open>WithDryRun\<close> of options.go stores the flag in a
  \<^verbatim>\<open>deleteOpts\<close> field that the \<^verbatim>\<open>Pruner\<close> struct of pruner.go does not have; the flag that
  \<^verbatim>\<open>pruneStaleResources\<close> reads is \<open>dryRun\<close>.
\<close>

definition WithDryRun :: "bool \<Rightarrow> 'w Option" where
  "WithDryRun d = (\<lambda>p. if d then p\<lparr>dryRun := True\<rparr> else p)"

section \<open>Sessions\<close>

text \<open>
  The marking phase of a session: the caller's \<^verbatim>\<open>MarkReconciled\<close> calls in order, each made
  with the owner as it is at that moment. A call that returns an error leaves the pruner as
  it was, and the caller goes on or gives up; both are runs of \<open>markAll\<close>.
\<close>

fun markAll :: "Imports \<Rightarrow> 'w Pruner \<Rightarrow> (Owner \<times> Object) list \<Rightarrow> 'w Pruner" where
  "markAll k p [] = p"
| "markAll k p ((own, obj) # calls) =
     markAll k (snd (MarkReconciled k (p\<lparr>owner := own\<rparr>) obj)) calls"

text \<open>The references of the calls of a session that returned no error.\<close>

fun markedRefs :: "Imports \<Rightarrow> 'w Pruner \<Rightarrow> (Owner \<times> Object) list \<Rightarrow> ObjectReference list" where
  "markedRefs k p [] = []"
| "markedRefs k p ((own, obj) # calls) =
     (case MarkReconciled k (p\<lparr>owner := own\<rparr>) obj of
        (Some err, p') \<Rightarrow> markedRefs k p' calls
      | (None, p') \<Rightarrow>
          (case makeObjectReference k p obj of
             Inl err \<Rightarrow> markedRefs k p' calls
           | Inr ref \<Rightarrow> ref # markedRefs k p' calls))"

section \<open>The formulations of the specification\<close>




text \<open>
  The errors an error value wraps, following \<^verbatim>\<open>Unwrap\<close> through \<^verbatim>\<open>%w\<close> arguments and joined
  lists.
\<close>

primrec wrapped :: "error \<Rightarrow> error set" and wrappedArg :: "fmtarg \<Rightarrow> error set" where
  "wrapped (Opaque s) = {}"
| "wrapped (Errorf f args) = \<Union> (set (map wrappedArg args))"
| "wrapped (Join es) = set es \<union> \<Union> (set (map wrapped es))"
| "wrappedArg (ArgString s) = {}"
| "wrappedArg (ArgGVK g) = {}"
| "wrappedArg (ArgObjectKey ns n) = {}"
| "wrappedArg (ArgError e) = insert e (wrapped e)"

section \<open>Test doubles\<close>

text \<open>
  The collaborators of the examples, after the fake client and \<^verbatim>\<open>setupScheme\<close> of the tests.
  The world is the list of the names of the deployments that exist.
\<close>

definition fakeImports :: Imports where
  "fakeImports =
     \<lparr>IsNotFound = (\<lambda>err. err = Opaque ''NotFound''),
      ParseGroupVersion = (\<lambda>s.
         if s = ''apps/v1'' then Inr \<lparr>gvGroup = ''apps'', gvVersion = ''v1''\<rparr>
         else if s = ''v1'' then Inr \<lparr>gvGroup = '''', gvVersion = ''v1''\<rparr>
         else Inl (Opaque ''unexpected GroupVersion string'')),
      GroupVersionString = (\<lambda>gv.
         if gvGroup gv = '''' then gvVersion gv else gvGroup gv @ ''/'' @ gvVersion gv)\<rparr>"

definition deploymentGVK :: GroupVersionKind where
  "deploymentGVK = \<lparr>gvkGroup = ''apps'', gvkVersion = ''v1'', gvkKind = ''Deployment''\<rparr>"

definition setupScheme :: Scheme where
  "setupScheme =
     \<lparr>ObjectKinds = (\<lambda>obj.
         if GoType obj = ''appsv1.Deployment'' then Inr [deploymentGVK]
         else Inl (Opaque ''no kind is registered for the type'')),
      New = (\<lambda>gvk.
         if gvk = deploymentGVK
         then Inr (ClientObject \<lparr>GoType = ''appsv1.Deployment'', GetNamespace = '''',
                                  GetName = '''', GetUID = ''''\<rparr>)
         else Inl (Opaque ''no kind is registered for the version''))\<rparr>"

definition fakeClient :: "string list Client" where
  "fakeClient =
     \<lparr>Delete = (\<lambda>obj w.
        if GetName obj \<in> set w then (None, removeAll (GetName obj) w)
        else (Some (Opaque ''NotFound''), w))\<rparr>"

definition forbiddenClient :: "string list Client" where
  "forbiddenClient = \<lparr>Delete = (\<lambda>obj w. (Some (Opaque ''Forbidden''), w))\<rparr>"

definition statusOk :: "string list \<Rightarrow> error option \<times> string list" where
  "statusOk w = (None, w)"

definition statusConflict :: "string list \<Rightarrow> error option \<times> string list" where
  "statusConflict w = (Some (Opaque ''Conflict''), w)"

definition deployment :: "string \<Rightarrow> string \<Rightarrow> Object" where
  "deployment name uid =
     \<lparr>GoType = ''appsv1.Deployment'', GetNamespace = ''default'', GetName = name,
      GetUID = uid\<rparr>"

definition deploymentRef :: "string \<Rightarrow> string \<Rightarrow> ObjectReference" where
  "deploymentRef name uid =
     \<lparr>Kind = ''Deployment'', Namespace = ''default'', Name = name, UID = uid,
      APIVersion = ''apps/v1'', ResourceVersion = '''', FieldPath = ''''\<rparr>"

definition managedChild :: "ObjectReference \<Rightarrow> int64 \<Rightarrow> ManagedChild" where
  "managedChild ref g = \<lparr>ObjectReference = ref, ObservedGeneration = g\<rparr>"

definition ownerAt :: "int64 \<Rightarrow> Owner" where
  "ownerAt g = \<lparr>GetGeneration = g\<rparr>"

text \<open>
  A reconciliation at generation 2, as in \<^verbatim>\<open>TestPruner_SecondReconcileWithPrune\<close>: a pruner over
  the given ledger, with the scheme and further options, after marking the given objects.
\<close>

definition secondReconcile ::
  "string list Client \<Rightarrow> ManagedChild list \<Rightarrow> string list Option list \<Rightarrow> Object list
     \<Rightarrow> string list Pruner" where
  "secondReconcile c cs opts objs =
     markAll fakeImports (NewPruner c (ownerAt 2) cs (WithScheme (Some setupScheme) # opts))
       (map (Pair (ownerAt 2)) objs)"

text \<open>A reference to a kind that the scheme of the tests does not know.\<close>

definition widgetRef :: "string \<Rightarrow> string \<Rightarrow> ObjectReference" where
  "widgetRef name uid =
     \<lparr>Kind = ''Widget'', Namespace = ''default'', Name = name, UID = uid,
      APIVersion = ''v1'', ResourceVersion = '''', FieldPath = ''''\<rparr>"

text \<open>Whether the reference of a ledger entry can be turned back into an object.\<close>

definition resolvable :: "Imports \<Rightarrow> 'w Pruner \<Rightarrow> ManagedChild \<Rightarrow> bool" where
  "resolvable k p e =
     (case objectFromReference k p (ObjectReference e) of
        Some (Inr obj) \<Rightarrow> True
      | _ \<Rightarrow> False)"

section \<open>Theorems\<close>

subsection \<open>The baseline generation\<close>








subsection \<open>Evaluating the test doubles\<close>

lemmas fixture_defs =
  fakeImports_def setupScheme_def deploymentGVK_def fakeClient_def forbiddenClient_def
  statusOk_def statusConflict_def deployment_def deploymentRef_def widgetRef_def
  managedChild_def ownerAt_def

subsection \<open>MarkReconciled\<close>

lemma map_ref_upsertChild:
  "map ObjectReference (upsertChild cs ref g) =
     (if ref \<in> ObjectReference ` set cs then map ObjectReference cs
      else map ObjectReference cs @ [ref])"
  by (induction cs) auto

lemma upsertChild_absent:
  "ref \<notin> ObjectReference ` set cs \<Longrightarrow>
     upsertChild cs ref g = cs @ [\<lparr>ObjectReference = ref, ObservedGeneration = g\<rparr>]"
  by (induction cs) auto

lemma upsertChild_present:
  "ref \<in> ObjectReference ` set cs \<Longrightarrow>
     upsertChild cs ref g =
       cs[length (takeWhile (\<lambda>c. ObjectReference c \<noteq> ref) cs) :=
            (cs ! length (takeWhile (\<lambda>c. ObjectReference c \<noteq> ref) cs))\<lparr>ObservedGeneration := g\<rparr>]"
  by (induction cs) auto

lemma first_index_present:
  "ref \<in> ObjectReference ` set cs \<Longrightarrow>
     length (takeWhile (\<lambda>c. ObjectReference c \<noteq> ref) cs) < length cs
     \<and> ObjectReference (cs ! length (takeWhile (\<lambda>c. ObjectReference c \<noteq> ref) cs)) = ref"
  by (induction cs) auto

lemma upsertChild_member:
  "\<lparr>ObjectReference = ref, ObservedGeneration = g\<rparr> \<in> set (upsertChild cs ref g)"
  by (induction cs) auto

lemma distinct_upsertChild:
  "distinct (map ObjectReference cs) \<Longrightarrow> distinct (map ObjectReference (upsertChild cs ref g))"
  by (simp add: map_ref_upsertChild)

text \<open>
  C7. A successful \<open>MarkReconciled\<close> inserts the key of the resource's reference into the
  desired set and leaves in the ledger an entry with that reference and the owner's
  generation at call time: when an entry with an equal reference exists, the first such
  entry has its generation overwritten in place, otherwise exactly one entry is appended;
  references that were pairwise distinct stay so.
\<close>

theorem MarkReconciled_upserts_ledger:
  assumes "MarkReconciled k p obj = (None, p')"
  shows "\<exists>ref. makeObjectReference k p obj = Inr ref
     \<and> desiredRefs p' = insert (makeRefKey ref) (desiredRefs p)
     \<and> \<lparr>ObjectReference = ref, ObservedGeneration = GetGeneration (owner p)\<rparr> \<in> set (children p')
     \<and> (ref \<in> ObjectReference ` set (children p) \<longrightarrow>
          length (takeWhile (\<lambda>c. ObjectReference c \<noteq> ref) (children p)) < length (children p)
          \<and> ObjectReference (children p ! length (takeWhile (\<lambda>c. ObjectReference c \<noteq> ref) (children p))) = ref
          \<and> children p' =
              (children p)[length (takeWhile (\<lambda>c. ObjectReference c \<noteq> ref) (children p)) :=
                 (children p ! length (takeWhile (\<lambda>c. ObjectReference c \<noteq> ref) (children p)))
                   \<lparr>ObservedGeneration := GetGeneration (owner p)\<rparr>])
     \<and> (ref \<notin> ObjectReference ` set (children p) \<longrightarrow>
          children p' = children p @
            [\<lparr>ObjectReference = ref, ObservedGeneration = GetGeneration (owner p)\<rparr>])
     \<and> (distinct (map ObjectReference (children p)) \<longrightarrow>
          distinct (map ObjectReference (children p')))"
proof -
  from assms obtain ref where ref: "makeObjectReference k p obj = Inr ref"
    and p': "p' = p\<lparr>desiredRefs := insert (makeRefKey ref) (desiredRefs p),
                    children := upsertChild (children p) ref (GetGeneration (owner p))\<rparr>"
    by (auto simp: MarkReconciled_def Let_def split: if_splits sum.splits)
  have cs: "children p' = upsertChild (children p) ref (GetGeneration (owner p))"
    by (simp add: p')
  show ?thesis
  proof (intro exI [of _ ref] conjI impI)
    show "makeObjectReference k p obj = Inr ref" by (rule ref)
    show "desiredRefs p' = insert (makeRefKey ref) (desiredRefs p)" by (simp add: p')
    show "\<lparr>ObjectReference = ref, ObservedGeneration = GetGeneration (owner p)\<rparr> \<in> set (children p')"
      by (simp add: cs upsertChild_member)
  next
    assume "ref \<in> ObjectReference ` set (children p)"
    then show "length (takeWhile (\<lambda>c. ObjectReference c \<noteq> ref) (children p)) < length (children p)"
      and "ObjectReference (children p ! length (takeWhile (\<lambda>c. ObjectReference c \<noteq> ref) (children p))) = ref"
      and "children p' =
              (children p)[length (takeWhile (\<lambda>c. ObjectReference c \<noteq> ref) (children p)) :=
                 (children p ! length (takeWhile (\<lambda>c. ObjectReference c \<noteq> ref) (children p)))
                   \<lparr>ObservedGeneration := GetGeneration (owner p)\<rparr>]"
      by (simp_all add: first_index_present cs upsertChild_present)
  next
    assume "ref \<notin> ObjectReference ` set (children p)"
    then show "children p' = children p @
            [\<lparr>ObjectReference = ref, ObservedGeneration = GetGeneration (owner p)\<rparr>]"
      by (simp add: cs upsertChild_absent)
  next
    assume "distinct (map ObjectReference (children p))"
    then show "distinct (map ObjectReference (children p'))"
      by (simp add: cs distinct_upsertChild)
  qed
qed

theorem MarkReconciled_upserts_ledger_witness:
  "MarkReconciled fakeImports
          (NewPruner fakeClient (ownerAt 2)
             [managedChild (deploymentRef ''x'' ''u1'') 1, managedChild (deploymentRef ''y'' ''u2'') 1]
             [WithScheme (Some setupScheme)])
          (deployment ''y'' ''u2'')
     = (None, snd (MarkReconciled fakeImports
          (NewPruner fakeClient (ownerAt 2)
             [managedChild (deploymentRef ''x'' ''u1'') 1, managedChild (deploymentRef ''y'' ''u2'') 1]
             [WithScheme (Some setupScheme)])
          (deployment ''y'' ''u2'')))
   \<and> children (snd (MarkReconciled fakeImports
          (NewPruner fakeClient (ownerAt 2)
             [managedChild (deploymentRef ''x'' ''u1'') 1, managedChild (deploymentRef ''y'' ''u2'') 1]
             [WithScheme (Some setupScheme)])
          (deployment ''y'' ''u2''))) =
       [managedChild (deploymentRef ''x'' ''u1'') 1, managedChild (deploymentRef ''y'' ''u2'') 2]"
proof -
  let ?p = "NewPruner fakeClient (ownerAt 2)
             [managedChild (deploymentRef ''x'' ''u1'') 1, managedChild (deploymentRef ''y'' ''u2'') 1]
             [WithScheme (Some setupScheme)]"
  have eq: "MarkReconciled fakeImports ?p (deployment ''y'' ''u2'')
      = (None, snd (MarkReconciled fakeImports ?p (deployment ''y'' ''u2'')))"
    by (simp add: MarkReconciled_def makeObjectReference_def getGVK_def NewPruner_def
          WithScheme_def Let_def fixture_defs)
  from MarkReconciled_upserts_ledger [OF eq] eq
  show ?thesis
    by (simp add: MarkReconciled_def makeObjectReference_def getGVK_def NewPruner_def
          WithScheme_def Let_def fixture_defs)
qed

text \<open>
  C6. \<open>MarkReconciled\<close> returns an error exactly when the resource has an empty UID or its
  reference cannot be constructed, and whenever it returns an error the pruner, with its
  desired set and ledger, is exactly as before the call.
\<close>

theorem MarkReconciled_error_no_mutation:
  "(fst (MarkReconciled k p obj) \<noteq> None \<longleftrightarrow>
      GetUID obj = '''' \<or> (\<exists>err. makeObjectReference k p obj = Inl err))
   \<and> (fst (MarkReconciled k p obj) \<noteq> None \<longrightarrow> snd (MarkReconciled k p obj) = p)"
  by (auto simp: MarkReconciled_def Let_def split: sum.splits)

theorem MarkReconciled_error_no_mutation_witness:
  "GetUID (deployment ''x'' '''') = ''''
   \<and> fst (MarkReconciled fakeImports
            (NewPruner fakeClient (ownerAt 1) [managedChild (deploymentRef ''y'' ''u2'') 1]
               [WithScheme (Some setupScheme)])
            (deployment ''x'' '''')) \<noteq> None
   \<and> snd (MarkReconciled fakeImports
            (NewPruner fakeClient (ownerAt 1) [managedChild (deploymentRef ''y'' ''u2'') 1]
               [WithScheme (Some setupScheme)])
            (deployment ''x'' ''''))
       = NewPruner fakeClient (ownerAt 1) [managedChild (deploymentRef ''y'' ''u2'') 1]
               [WithScheme (Some setupScheme)]"
  using MarkReconciled_error_no_mutation
    [of fakeImports
        "NewPruner fakeClient (ownerAt 1) [managedChild (deploymentRef ''y'' ''u2'') 1]
               [WithScheme (Some setupScheme)]" "deployment ''x'' ''''"]
  by (simp add: deployment_def)

subsection \<open>The pruning loop\<close>

lemma pruneLoop_append:
  "pruneLoop k p d g st (xs @ ys) =
     (case pruneLoop k p d g st xs of None \<Rightarrow> None | Some st1 \<Rightarrow> pruneLoop k p d g st1 ys)"
  by (induction xs arbitrary: st) (auto split: option.splits)

lemma pruneChild_keep:
  "makeRefKey (ObjectReference e) \<in> d \<or> g <s ObservedGeneration e \<Longrightarrow>
     pruneChild k p d g st e = Some (st\<lparr>newChildren := newChildren st @ [e]\<rparr>)"
  by (auto simp: pruneChild_def Let_def)

lemma objectFromReference_total:
  "scheme p \<noteq> None \<Longrightarrow> objectFromReference k p ref \<noteq> None"
  by (auto simp: objectFromReference_def Let_def split: sum.splits RuntimeObject.splits)

lemma pruneChild_total:
  "scheme p \<noteq> None \<Longrightarrow> \<exists>st'. pruneChild k p d g st e = Some st'"
  using objectFromReference_total [of p k "ObjectReference e"]
  by (auto simp: pruneChild_def Let_def split: option.splits sum.splits prod.splits)

lemma pruneLoop_total:
  "scheme p \<noteq> None \<Longrightarrow> \<exists>st'. pruneLoop k p d g st cs = Some st'"
proof (induction cs arbitrary: st)
  case Nil
  show ?case by simp
next
  case (Cons e cs)
  from pruneChild_total [OF Cons.prems] obtain st1
    where "pruneChild k p d g st e = Some st1" by blast
  with Cons.IH [OF Cons.prems, of st1] show ?case by simp
qed

text \<open>What one iteration can do to the new ledger and to the error list.\<close>

lemma pruneChild_grows:
  assumes "pruneChild k p d g st e = Some st1"
  shows "(newChildren st1 = newChildren st \<or> newChildren st1 = newChildren st @ [e])
       \<and> (\<exists>es. pruneErrors st1 = pruneErrors st @ es)"
  using assms
  by (auto simp: pruneChild_def Let_def split: if_splits option.splits sum.splits prod.splits)

lemma pruneLoop_grows:
  assumes "pruneLoop k p d g st cs = Some st'"
  shows "\<exists>zs es. newChildren st' = newChildren st @ zs \<and> subseq zs cs
            \<and> pruneErrors st' = pruneErrors st @ es"
  using assms
proof (induction cs arbitrary: st)
  case Nil
  then show ?case by simp
next
  case (Cons e cs)
  from Cons.prems obtain st1 where st1: "pruneChild k p d g st e = Some st1"
    and rest: "pruneLoop k p d g st1 cs = Some st'"
    by (auto split: option.splits)
  from Cons.IH [OF rest] obtain zs es where zs: "newChildren st' = newChildren st1 @ zs"
    "subseq zs cs" and es: "pruneErrors st' = pruneErrors st1 @ es" by blast
  from pruneChild_grows [OF st1] obtain es1 where es1: "pruneErrors st1 = pruneErrors st @ es1"
    and nc: "newChildren st1 = newChildren st \<or> newChildren st1 = newChildren st @ [e]" by blast
  from nc show ?case
  proof
    assume "newChildren st1 = newChildren st"
    with zs es es1 show ?thesis
      by (intro exI [of _ zs] exI [of _ "es1 @ es"]) auto
  next
    assume "newChildren st1 = newChildren st @ [e]"
    with zs es es1 show ?thesis
      by (intro exI [of _ "e # zs"] exI [of _ "es1 @ es"]) simp
  qed
qed

text \<open>An iteration that adds no error keeps exactly the desired and the fresh entries.\<close>

lemma pruneChild_no_error:
  assumes "pruneChild k p d g st e = Some st1" and "pruneErrors st1 = pruneErrors st"
  shows "newChildren st1 = newChildren st @
           filter (\<lambda>e. makeRefKey (ObjectReference e) \<in> d \<or> g <s ObservedGeneration e) [e]"
  using assms
  by (auto simp: pruneChild_def Let_def split: if_splits option.splits sum.splits prod.splits)

lemma pruneLoop_no_error:
  assumes "pruneLoop k p d g st cs = Some st'" and "pruneErrors st' = pruneErrors st"
  shows "newChildren st' = newChildren st @
           filter (\<lambda>e. makeRefKey (ObjectReference e) \<in> d \<or> g <s ObservedGeneration e) cs"
  using assms
proof (induction cs arbitrary: st)
  case Nil
  then show ?case by simp
next
  case (Cons e cs)
  from Cons.prems obtain st1 where st1: "pruneChild k p d g st e = Some st1"
    and rest: "pruneLoop k p d g st1 cs = Some st'"
    by (auto split: option.splits)
  from pruneChild_grows [OF st1] obtain es1 where es1: "pruneErrors st1 = pruneErrors st @ es1"
    by blast
  from pruneLoop_grows [OF rest] obtain es where es: "pruneErrors st' = pruneErrors st1 @ es"
    by blast
  from es1 es Cons.prems(2) have "es1 = []" and "es = []" by simp_all
  then have e1: "pruneErrors st1 = pruneErrors st" and e2: "pruneErrors st' = pruneErrors st1"
    using es1 es by simp_all
  from Cons.IH [OF rest e2] pruneChild_no_error [OF st1 e1]
  show ?case by simp
qed

lemma Prune_no_error:
  assumes adv: "lastAppliedGen p <s GetGeneration (owner p)"
    and ok: "Prune k p updateStatus w = Some ((res, None), p', w')"
  shows "children p' =
           filter (\<lambda>e. makeRefKey (ObjectReference e) \<in> desiredRefs p
                      \<or> lastAppliedGen p <s ObservedGeneration e) (children p)"
proof -
  from adv ok obtain st' where loop: "pruneLoop k p (desiredRefs p) (lastAppliedGen p)
      \<lparr>pruneErrors = [], newChildren = [], loopResult = result p, world = w\<rparr> (children p) = Some st'"
    and noerr: "pruneErrors st' = []" and cs: "children p' = newChildren st'"
    by (auto simp: Prune_def pruneStaleResources_def Let_def finishPrune_def
             split: option.splits prod.splits if_splits)
  from pruneLoop_no_error [OF loop] noerr cs show ?thesis by simp
qed

subsection \<open>Sessions\<close>

lemma libraryOption_fields:
  assumes "opt \<in> range WithScheme \<union> range WithErrorHandler \<union> range WithDryRun"
  shows "children (opt q) = children q \<and> desiredRefs (opt q) = desiredRefs q
       \<and> result (opt q) = result q \<and> lastAppliedGen (opt q) = lastAppliedGen q
       \<and> owner (opt q) = owner q \<and> client (opt q) = client q"
  using assms by (auto simp: WithScheme_def WithErrorHandler_def WithDryRun_def split: if_splits)

lemma foldl_libraryOptions:
  assumes "set opts \<subseteq> range WithScheme \<union> range WithErrorHandler \<union> range WithDryRun"
  shows "children (foldl (\<lambda>q opt. opt q) q opts) = children q
       \<and> desiredRefs (foldl (\<lambda>q opt. opt q) q opts) = desiredRefs q
       \<and> result (foldl (\<lambda>q opt. opt q) q opts) = result q
       \<and> lastAppliedGen (foldl (\<lambda>q opt. opt q) q opts) = lastAppliedGen q
       \<and> owner (foldl (\<lambda>q opt. opt q) q opts) = owner q
       \<and> client (foldl (\<lambda>q opt. opt q) q opts) = client q"
  using assms
proof (induction opts arbitrary: q)
  case Nil
  show ?case by simp
next
  case (Cons opt opts)
  from Cons.prems have o: "opt \<in> range WithScheme \<union> range WithErrorHandler \<union> range WithDryRun"
    and os: "set opts \<subseteq> range WithScheme \<union> range WithErrorHandler \<union> range WithDryRun"
    by simp_all
  from Cons.IH [OF os, of "opt q"] libraryOption_fields [OF o, of q]
  show ?case by simp
qed

lemma NewPruner_fields:
  assumes "set opts \<subseteq> range WithScheme \<union> range WithErrorHandler \<union> range WithDryRun"
  shows "children (NewPruner c own cs opts) = cs"
    and "desiredRefs (NewPruner c own cs opts) = {}"
    and "result (NewPruner c own cs opts) = \<lparr>Pruned = [], Skipped = []\<rparr>"
    and "lastAppliedGen (NewPruner c own cs opts) = getLastAppliedGeneration cs (GetGeneration own)"
    and "owner (NewPruner c own cs opts) = own"
    and "client (NewPruner c own cs opts) = c"
  using foldl_libraryOptions [OF assms]
  by (simp_all add: NewPruner_def Let_def)

lemma MarkReconciled_fields:
  "result (snd (MarkReconciled k p obj)) = result p
   \<and> lastAppliedGen (snd (MarkReconciled k p obj)) = lastAppliedGen p
   \<and> scheme (snd (MarkReconciled k p obj)) = scheme p
   \<and> dryRun (snd (MarkReconciled k p obj)) = dryRun p
   \<and> client (snd (MarkReconciled k p obj)) = client p
   \<and> errorHandler (snd (MarkReconciled k p obj)) = errorHandler p
   \<and> owner (snd (MarkReconciled k p obj)) = owner p"
  by (simp add: MarkReconciled_def Let_def split: sum.splits)

lemma makeObjectReference_scheme:
  "scheme p = scheme q \<Longrightarrow> makeObjectReference k p obj = makeObjectReference k q obj"
  by (simp add: makeObjectReference_def getGVK_def)

lemma MarkReconciled_desiredRefs:
  "desiredRefs (snd (MarkReconciled k p obj)) =
     (case MarkReconciled k p obj of
        (Some err, _) \<Rightarrow> desiredRefs p
      | (None, _) \<Rightarrow>
         (case makeObjectReference k p obj of
            Inl err \<Rightarrow> desiredRefs p
          | Inr ref \<Rightarrow> insert (makeRefKey ref) (desiredRefs p)))"
  by (simp add: MarkReconciled_def Let_def split: sum.splits)

lemma markAll_fields:
  "result (markAll k p calls) = result p
   \<and> lastAppliedGen (markAll k p calls) = lastAppliedGen p
   \<and> scheme (markAll k p calls) = scheme p
   \<and> dryRun (markAll k p calls) = dryRun p
   \<and> client (markAll k p calls) = client p
   \<and> errorHandler (markAll k p calls) = errorHandler p"
proof (induction calls arbitrary: p)
  case Nil
  show ?case by simp
next
  case (Cons call calls)
  obtain own obj where call: "call = (own, obj)" by (cases call)
  from Cons.IH [of "snd (MarkReconciled k (p\<lparr>owner := own\<rparr>) obj)"]
    MarkReconciled_fields [of k "p\<lparr>owner := own\<rparr>" obj]
  show ?case by (simp add: call)
qed

lemma markAll_desiredRefs:
  "desiredRefs (markAll k p calls) = desiredRefs p \<union> makeRefKey ` set (markedRefs k p calls)"
proof (induction calls arbitrary: p)
  case Nil
  show ?case by simp
next
  case (Cons call calls)
  obtain own obj where call: "call = (own, obj)" by (cases call)
  let ?q = "p\<lparr>owner := own\<rparr>"
  let ?p1 = "snd (MarkReconciled k ?q obj)"
  have mk: "makeObjectReference k ?q obj = makeObjectReference k p obj"
    by (rule makeObjectReference_scheme) simp
  have step: "desiredRefs (markAll k p (call # calls))
                = desiredRefs ?p1 \<union> makeRefKey ` set (markedRefs k ?p1 calls)"
    using Cons.IH [of ?p1] by (simp add: call)
  show ?case
    unfolding step
    using MarkReconciled_desiredRefs [of k ?q obj] mk
    by (cases "MarkReconciled k ?q obj")
       (auto simp: call split: option.splits sum.splits)
qed

subsection \<open>Prune\<close>

text \<open>
  C2. In a session (a pruner built by \<open>NewPruner\<close> with the library's options, any marking
  calls) whose owner's generation at the time of \<open>Prune\<close> is not above the baseline computed
  at construction, \<open>Prune\<close> returns an empty result, hands the pruner back exactly as it was
  (the ledger with it), and the world is touched by the status callback alone: no deletion
  and no error handler runs, whatever was marked.
\<close>

theorem Prune_steady_state:
  assumes opts: "set opts \<subseteq> range WithScheme \<union> range WithErrorHandler \<union> range WithDryRun"
    and p: "p = (markAll k (NewPruner c own0 cs0 opts) calls)\<lparr>owner := own1\<rparr>"
    and steady: "GetGeneration own1 \<le>s getLastAppliedGeneration cs0 (GetGeneration own0)"
  shows "Prune k p updateStatus w =
           Some ((\<lparr>Pruned = [], Skipped = []\<rparr>,
                  map_option
                    (\<lambda>err. Errorf ''failed to update status after successful reconcile: %w''
                              [ArgError err])
                    (fst (updateStatus w))),
                 p, snd (updateStatus w))"
proof -
  have res: "result p = \<lparr>Pruned = [], Skipped = []\<rparr>"
    and base: "lastAppliedGen p = getLastAppliedGeneration cs0 (GetGeneration own0)"
    using markAll_fields [of k "NewPruner c own0 cs0 opts" calls] NewPruner_fields [OF opts]
    by (simp_all add: p)
  have own: "owner p = own1" by (simp add: p)
  from steady have "\<not> lastAppliedGen p <s GetGeneration (owner p)"
    by (simp add: base own word_sless_alt word_sle_eq)
  then show ?thesis
    by (cases "updateStatus w") (auto simp: Prune_def finishPrune_def res Let_def split: option.splits)
qed

theorem Prune_steady_state_witness:
  "set [WithScheme (Some setupScheme) :: string list Option]
     \<subseteq> range WithScheme \<union> range WithErrorHandler \<union> range WithDryRun
   \<and> GetGeneration (ownerAt 1)
       \<le>s getLastAppliedGeneration [managedChild (deploymentRef ''x'' ''u1'') 1,
             managedChild (deploymentRef ''y'' ''u2'') 1] (GetGeneration (ownerAt 1))
   \<and> Prune fakeImports
        ((markAll fakeImports
            (NewPruner fakeClient (ownerAt 1)
               [managedChild (deploymentRef ''x'' ''u1'') 1,
                managedChild (deploymentRef ''y'' ''u2'') 1]
               [WithScheme (Some setupScheme)])
            [(ownerAt 1, deployment ''y'' ''u2'')])\<lparr>owner := ownerAt 1\<rparr>)
        statusOk [''x'', ''y'']
      = Some ((\<lparr>Pruned = [], Skipped = []\<rparr>, None),
              (markAll fakeImports
                (NewPruner fakeClient (ownerAt 1)
                   [managedChild (deploymentRef ''x'' ''u1'') 1,
                    managedChild (deploymentRef ''y'' ''u2'') 1]
                   [WithScheme (Some setupScheme)])
                [(ownerAt 1, deployment ''y'' ''u2'')])\<lparr>owner := ownerAt 1\<rparr>,
              [''x'', ''y''])"
proof -
  have opts: "set [WithScheme (Some setupScheme) :: string list Option]
     \<subseteq> range WithScheme \<union> range WithErrorHandler \<union> range WithDryRun"
    by simp
  have steady: "GetGeneration (ownerAt 1)
       \<le>s getLastAppliedGeneration [managedChild (deploymentRef ''x'' ''u1'') 1,
             managedChild (deploymentRef ''y'' ''u2'') 1] (GetGeneration (ownerAt 1))"
    by (simp add: getLastAppliedGeneration_def maxGenStep_def managedChild_def ownerAt_def
          word_sless_alt word_sle_eq)
  from Prune_steady_state [OF opts refl steady, of fakeImports fakeClient
      "[(ownerAt 1, deployment ''y'' ''u2'')]" statusOk "[''x'', ''y'']"] opts steady
  show ?thesis by (simp add: statusOk_def)
qed

text \<open>
  C1 (as amended). In a session whose owner's generation at the time of \<open>Prune\<close> is above the
  baseline computed at construction, after a \<open>Prune\<close> that returns no error the ledger is the
  ledger as it was before the call restricted to the entries whose reference has the key
  (APIVersion, Kind, Namespace and Name, without the UID) of a reference marked in this
  session, or whose observed generation is above the baseline: an entry is still present
  if and only if it is of one of these two kinds.
\<close>

theorem Prune_survivors:
  assumes opts: "set opts \<subseteq> range WithScheme \<union> range WithErrorHandler \<union> range WithDryRun"
    and p: "p = (markAll k (NewPruner c own0 cs0 opts) calls)\<lparr>owner := own1\<rparr>"
    and adv: "getLastAppliedGeneration cs0 (GetGeneration own0) <s GetGeneration own1"
    and ok: "Prune k p updateStatus w = Some ((res, None), p', w')"
  shows "children p' =
           filter (\<lambda>e. makeRefKey (ObjectReference e)
                          \<in> makeRefKey ` set (markedRefs k (NewPruner c own0 cs0 opts) calls)
                      \<or> getLastAppliedGeneration cs0 (GetGeneration own0) <s ObservedGeneration e)
             (children p)"
proof -
  have base: "lastAppliedGen p = getLastAppliedGeneration cs0 (GetGeneration own0)"
    using markAll_fields [of k "NewPruner c own0 cs0 opts" calls] NewPruner_fields [OF opts]
    by (simp add: p)
  have des: "desiredRefs p = makeRefKey ` set (markedRefs k (NewPruner c own0 cs0 opts) calls)"
    using markAll_desiredRefs [of k "NewPruner c own0 cs0 opts" calls] NewPruner_fields [OF opts]
    by (simp add: p)
  have own: "owner p = own1"
    by (simp add: p)
  have adv': "lastAppliedGen p <s GetGeneration (owner p)"
    using adv by (simp only: base own)
  from Prune_no_error [OF adv' ok] show ?thesis
    by (simp add: base des)
qed

lemmas session_defs =
  secondReconcile_def NewPruner_def WithScheme_def WithDryRun_def WithErrorHandler_def
  MarkReconciled_def makeObjectReference_def getGVK_def makeRefKey_def Let_def

lemmas prune_defs =
  Prune_def finishPrune_def pruneStaleResources_def pruneChild_def objectFromReference_def
  deleteResource_def formatObjectReference_def defaultErrorHandler_def getLastAppliedGeneration_def
  maxGenStep_def word_sless_alt

theorem Prune_survivors_witness:
  "set [WithScheme (Some setupScheme) :: string list Option]
     \<subseteq> range WithScheme \<union> range WithErrorHandler \<union> range WithDryRun
   \<and> getLastAppliedGeneration
         [managedChild (deploymentRef ''x'' ''u1'') 1, managedChild (deploymentRef ''y'' ''u2'') 1]
         (GetGeneration (ownerAt 2)) <s GetGeneration (ownerAt 2)
   \<and> map_option (snd \<circ> fst)
        (Prune fakeImports
           ((secondReconcile fakeClient
               [managedChild (deploymentRef ''x'' ''u1'') 1,
                managedChild (deploymentRef ''y'' ''u2'') 1] []
               [deployment ''y'' ''u2''])\<lparr>owner := ownerAt 2\<rparr>)
           statusOk [''x'', ''y'']) = Some None
   \<and> map_option (children \<circ> fst \<circ> snd)
        (Prune fakeImports
           ((secondReconcile fakeClient
               [managedChild (deploymentRef ''x'' ''u1'') 1,
                managedChild (deploymentRef ''y'' ''u2'') 1] []
               [deployment ''y'' ''u2''])\<lparr>owner := ownerAt 2\<rparr>)
           statusOk [''x'', ''y''])
       = Some [managedChild (deploymentRef ''y'' ''u2'') 2]"
proof -
  let ?cs = "[managedChild (deploymentRef ''x'' ''u1'') 1, managedChild (deploymentRef ''y'' ''u2'') 1]"
  let ?q = "NewPruner fakeClient (ownerAt 2) ?cs [WithScheme (Some setupScheme)]"
  let ?calls = "map (Pair (ownerAt 2)) [deployment ''y'' ''u2'']"
  let ?p = "(secondReconcile fakeClient ?cs [] [deployment ''y'' ''u2''])\<lparr>owner := ownerAt 2\<rparr>"
  have opts: "set [WithScheme (Some setupScheme) :: string list Option]
     \<subseteq> range WithScheme \<union> range WithErrorHandler \<union> range WithDryRun"
    by simp
  have adv: "getLastAppliedGeneration ?cs (GetGeneration (ownerAt 2)) <s GetGeneration (ownerAt 2)"
    by (simp add: prune_defs fixture_defs)
  have p: "?p = (markAll fakeImports ?q ?calls)\<lparr>owner := ownerAt 2\<rparr>"
    by (simp only: secondReconcile_def)
  have cs: "children ?p = [managedChild (deploymentRef ''x'' ''u1'') 1,
                           managedChild (deploymentRef ''y'' ''u2'') 2]"
    by (simp add: session_defs fixture_defs)
  have marked: "markedRefs fakeImports ?q ?calls = [deploymentRef ''y'' ''u2'']"
    by (simp add: session_defs fixture_defs)
  have err: "map_option (snd \<circ> fst) (Prune fakeImports ?p statusOk [''x'', ''y'']) = Some None"
    by (simp add: session_defs prune_defs fixture_defs)
  then obtain res p' w' where
    ok: "Prune fakeImports ?p statusOk [''x'', ''y''] = Some ((res, None), p', w')"
    by (cases "Prune fakeImports ?p statusOk [''x'', ''y'']") auto
  from Prune_survivors [OF opts p adv ok]
  have "children p' = [managedChild (deploymentRef ''y'' ''u2'') 2]"
    unfolding cs marked
    by (simp add: prune_defs fixture_defs makeRefKey_def)
  with ok opts adv err show ?thesis by simp
qed

text \<open>
  C1 as stated fails when a marked resource has the name of a ledger entry and another UID
  (the resource was deleted and created again): the old entry, whose reference was not
  marked and whose generation is not above the baseline, is still in the ledger after a
  \<open>Prune\<close> that returns no error.
\<close>

theorem Prune_survivors_counterexample:
  "getLastAppliedGeneration [managedChild (deploymentRef ''x'' ''u1'') 1] (GetGeneration (ownerAt 2))
     <s GetGeneration (ownerAt 2)
   \<and> map_option (snd \<circ> fst)
        (Prune fakeImports
           (secondReconcile fakeClient [managedChild (deploymentRef ''x'' ''u1'') 1] []
              [deployment ''x'' ''u9''])
           statusOk [''x'']) = Some None
   \<and> map_option (children \<circ> fst \<circ> snd)
        (Prune fakeImports
           (secondReconcile fakeClient [managedChild (deploymentRef ''x'' ''u1'') 1] []
              [deployment ''x'' ''u9''])
           statusOk [''x''])
       = Some [managedChild (deploymentRef ''x'' ''u1'') 1,
               managedChild (deploymentRef ''x'' ''u9'') 2]
   \<and> deploymentRef ''x'' ''u1''
       \<notin> set (markedRefs fakeImports
                 (NewPruner fakeClient (ownerAt 2) [managedChild (deploymentRef ''x'' ''u1'') 1]
                    [WithScheme (Some setupScheme)])
                 [(ownerAt 2, deployment ''x'' ''u9'')])
   \<and> \<not> getLastAppliedGeneration [managedChild (deploymentRef ''x'' ''u1'') 1]
           (GetGeneration (ownerAt 2)) <s 1"
  by (simp add: session_defs prune_defs fixture_defs)

text \<open>
  C5 (as amended). Membership in the desired set is decided by the key string
  \<open>APIVersion/Kind/Namespace/Name\<close> of the reference: in a session an entry takes the
  keep-desired branch, which retains it unchanged, if and only if a reference with the same
  key was marked; two references that agree on these four fields have the same key,
  whatever their UIDs.
\<close>

theorem keep_desired_by_key:
  assumes opts: "set opts \<subseteq> range WithScheme \<union> range WithErrorHandler \<union> range WithDryRun"
    and p: "p = (markAll k (NewPruner c own0 cs0 opts) calls)\<lparr>owner := own1\<rparr>"
  shows "(makeRefKey (ObjectReference e) \<in> desiredRefs p \<longleftrightarrow>
            (\<exists>r \<in> set (markedRefs k (NewPruner c own0 cs0 opts) calls).
               makeRefKey r = makeRefKey (ObjectReference e)))
       \<and> (makeRefKey (ObjectReference e) \<in> desiredRefs p \<longrightarrow>
            pruneChild k p (desiredRefs p) (lastAppliedGen p) st e
              = Some (st\<lparr>newChildren := newChildren st @ [e]\<rparr>))
       \<and> (APIVersion r1 = APIVersion r2 \<and> Kind r1 = Kind r2 \<and> Namespace r1 = Namespace r2
            \<and> Name r1 = Name r2 \<longrightarrow> makeRefKey r1 = makeRefKey r2)"
proof (intro conjI impI)
  have des: "desiredRefs p = makeRefKey ` set (markedRefs k (NewPruner c own0 cs0 opts) calls)"
    using markAll_desiredRefs [of k "NewPruner c own0 cs0 opts" calls] NewPruner_fields [OF opts]
    by (simp add: p)
  show "makeRefKey (ObjectReference e) \<in> desiredRefs p \<longleftrightarrow>
            (\<exists>r \<in> set (markedRefs k (NewPruner c own0 cs0 opts) calls).
               makeRefKey r = makeRefKey (ObjectReference e))"
    unfolding des by (auto intro: rev_image_eqI)
next
  assume "makeRefKey (ObjectReference e) \<in> desiredRefs p"
  then show "pruneChild k p (desiredRefs p) (lastAppliedGen p) st e
              = Some (st\<lparr>newChildren := newChildren st @ [e]\<rparr>)"
    by (simp add: pruneChild_keep)
next
  assume "APIVersion r1 = APIVersion r2 \<and> Kind r1 = Kind r2 \<and> Namespace r1 = Namespace r2
            \<and> Name r1 = Name r2"
  then show "makeRefKey r1 = makeRefKey r2"
    by (simp add: makeRefKey_def)
qed

theorem keep_desired_by_key_witness:
  "set [WithScheme (Some setupScheme) :: string list Option]
     \<subseteq> range WithScheme \<union> range WithErrorHandler \<union> range WithDryRun
   \<and> markedRefs fakeImports
        (NewPruner fakeClient (ownerAt 2)
           [managedChild (deploymentRef ''x'' ''u1'') 1, managedChild (deploymentRef ''y'' ''u2'') 1]
           [WithScheme (Some setupScheme)])
        [(ownerAt 2, deployment ''y'' ''u2'')] = [deploymentRef ''y'' ''u2'']
   \<and> makeRefKey (ObjectReference (managedChild (deploymentRef ''y'' ''u2'') 2))
       \<in> desiredRefs
           ((markAll fakeImports
               (NewPruner fakeClient (ownerAt 2)
                  [managedChild (deploymentRef ''x'' ''u1'') 1,
                   managedChild (deploymentRef ''y'' ''u2'') 1]
                  [WithScheme (Some setupScheme)])
               [(ownerAt 2, deployment ''y'' ''u2'')])\<lparr>owner := ownerAt 2\<rparr>)
   \<and> makeRefKey (ObjectReference (managedChild (deploymentRef ''x'' ''u1'') 1))
       \<notin> desiredRefs
           ((markAll fakeImports
               (NewPruner fakeClient (ownerAt 2)
                  [managedChild (deploymentRef ''x'' ''u1'') 1,
                   managedChild (deploymentRef ''y'' ''u2'') 1]
                  [WithScheme (Some setupScheme)])
               [(ownerAt 2, deployment ''y'' ''u2'')])\<lparr>owner := ownerAt 2\<rparr>)"
proof -
  let ?cs = "[managedChild (deploymentRef ''x'' ''u1'') 1, managedChild (deploymentRef ''y'' ''u2'') 1]"
  let ?q = "NewPruner fakeClient (ownerAt 2) ?cs [WithScheme (Some setupScheme)]"
  have opts: "set [WithScheme (Some setupScheme) :: string list Option]
     \<subseteq> range WithScheme \<union> range WithErrorHandler \<union> range WithDryRun"
    by simp
  have marked: "markedRefs fakeImports ?q [(ownerAt 2, deployment ''y'' ''u2'')]
                  = [deploymentRef ''y'' ''u2'']"
    by (simp add: session_defs fixture_defs)
  from keep_desired_by_key [OF opts refl, where k = fakeImports and c = fakeClient
         and ?own0.0 = "ownerAt 2" and ?cs0.0 = ?cs
         and calls = "[(ownerAt 2, deployment ''y'' ''u2'')]" and ?own1.0 = "ownerAt 2"
         and e = "managedChild (deploymentRef ''y'' ''u2'') 2"]
       keep_desired_by_key [OF opts refl, where k = fakeImports and c = fakeClient
         and ?own0.0 = "ownerAt 2" and ?cs0.0 = ?cs
         and calls = "[(ownerAt 2, deployment ''y'' ''u2'')]" and ?own1.0 = "ownerAt 2"
         and e = "managedChild (deploymentRef ''x'' ''u1'') 1"]
  have "makeRefKey (ObjectReference (managedChild (deploymentRef ''y'' ''u2'') 2))
          \<in> desiredRefs ((markAll fakeImports ?q [(ownerAt 2, deployment ''y'' ''u2'')])\<lparr>owner := ownerAt 2\<rparr>)"
    and "makeRefKey (ObjectReference (managedChild (deploymentRef ''x'' ''u1'') 1))
          \<notin> desiredRefs ((markAll fakeImports ?q [(ownerAt 2, deployment ''y'' ''u2'')])\<lparr>owner := ownerAt 2\<rparr>)"
    unfolding marked
    by (simp_all add: makeRefKey_def managedChild_def deploymentRef_def)
  with opts marked show ?thesis by simp
qed

text \<open>
  C5 as stated fails: after marking only the deployment \<open>x\<close> with UID \<open>u9\<close>, the ledger entry
  for \<open>x\<close> with UID \<open>u1\<close>, a different reference, is in the desired set and takes the
  keep-desired branch.
\<close>

theorem keep_desired_by_key_counterexample:
  "markedRefs fakeImports
     (NewPruner fakeClient (ownerAt 2) [managedChild (deploymentRef ''x'' ''u1'') 1]
        [WithScheme (Some setupScheme)])
     [(ownerAt 2, deployment ''x'' ''u9'')] = [deploymentRef ''x'' ''u9'']
   \<and> deploymentRef ''x'' ''u1'' \<noteq> deploymentRef ''x'' ''u9''
   \<and> makeRefKey (deploymentRef ''x'' ''u1'')
       \<in> desiredRefs (secondReconcile fakeClient [managedChild (deploymentRef ''x'' ''u1'') 1] []
                        [deployment ''x'' ''u9''])
   \<and> pruneChild fakeImports
        (secondReconcile fakeClient [managedChild (deploymentRef ''x'' ''u1'') 1] []
           [deployment ''x'' ''u9''])
        (desiredRefs (secondReconcile fakeClient [managedChild (deploymentRef ''x'' ''u1'') 1] []
                        [deployment ''x'' ''u9'']))
        1
        \<lparr>pruneErrors = [], newChildren = [], loopResult = \<lparr>Pruned = [], Skipped = []\<rparr>,
         world = [''x'']\<rparr>
        (managedChild (deploymentRef ''x'' ''u1'') 1)
      = Some \<lparr>pruneErrors = [], newChildren = [managedChild (deploymentRef ''x'' ''u1'') 1],
              loopResult = \<lparr>Pruned = [], Skipped = []\<rparr>, world = [''x'']\<rparr>"
  by (simp add: session_defs prune_defs fixture_defs)

subsection \<open>Prune over an advanced generation\<close>

lemma Prune_advanced:
  assumes adv: "lastAppliedGen p <s GetGeneration (owner p)"
    and loop: "pruneLoop k p (desiredRefs p) (lastAppliedGen p)
                 \<lparr>pruneErrors = [], newChildren = [], loopResult = result p, world = w\<rparr>
                 (children p) = Some st'"
  shows "Prune k p updateStatus w =
           Some ((loopResult st',
                  if pruneErrors st' \<noteq> [] then
                    Some (case fst (updateStatus (world st')) of
                            None \<Rightarrow> Join (pruneErrors st')
                          | Some updateErr \<Rightarrow>
                              Errorf ''failed to update status after prune errors: %w''
                                [ArgError updateErr])
                  else
                    map_option
                      (\<lambda>err. Errorf ''failed to update status after successful reconcile: %w''
                                [ArgError err])
                      (fst (updateStatus (world st')))),
                 p\<lparr>children := newChildren st', result := loopResult st'\<rparr>,
                 snd (updateStatus (world st')))"
  using adv loop
  by (cases "updateStatus (world st')")
     (auto simp: Prune_def pruneStaleResources_def finishPrune_def Let_def split: option.splits)

lemma pruneLoop_at:
  assumes "pruneLoop k p d g st0 xs = Some st"
    and "pruneChild k p d g st e = Some st1"
  shows "pruneLoop k p d g st0 (xs @ e # ys) = pruneLoop k p d g st1 ys"
  using assms by (simp add: pruneLoop_append)

lemma objectFromReference_scheme:
  "objectFromReference k p ref = Some (Inr obj) \<Longrightarrow> scheme p \<noteq> None"
  by (auto simp: objectFromReference_def Let_def split: sum.splits option.splits)

text \<open>
  C4 (as amended). With the generation advanced and dry-run off, take a stale entry \<open>e\<close> of
  the ledger whose deletion fails with an error that is not not-found and for which the
  error handler returns an error. The loop does not stop there: it goes on over the rest
  of the ledger from a state in which \<open>e\<close> is retained and the handler's error is
  accumulated. \<open>Prune\<close> returns, with the partial result and with \<open>e\<close> in the ledger; its
  error is the join of all accumulated errors when the status callback succeeds, and the
  failure of the status callback otherwise.
\<close>

theorem Prune_handler_error_retains:
  assumes adv: "lastAppliedGen p <s GetGeneration (owner p)"
    and nodry: "\<not> dryRun p"
    and split: "children p = xs @ e # ys"
    and stale: "makeRefKey (ObjectReference e) \<notin> desiredRefs p"
               "\<not> lastAppliedGen p <s ObservedGeneration e"
    and obj: "objectFromReference k p (ObjectReference e) = Some (Inr obj)"
    and reach: "pruneLoop k p (desiredRefs p) (lastAppliedGen p)
                  \<lparr>pruneErrors = [], newChildren = [], loopResult = result p, world = w\<rparr> xs
                = Some st"
    and del: "Delete (client p) obj (world st) = (Some err, w1)" "\<not> IsNotFound k err"
    and hdl: "errorHandler p err obj w1 = (Some handledErr, w2)"
  shows "\<exists>st'. pruneLoop k p (desiredRefs p) (lastAppliedGen p)
                (st\<lparr>pruneErrors := pruneErrors st @ [handledErr],
                    newChildren := newChildren st @ [e],
                    world := w2\<rparr>) ys = Some st'
          \<and> handledErr \<in> set (pruneErrors st')
          \<and> e \<in> set (newChildren st')
          \<and> Prune k p updateStatus w =
               Some ((loopResult st',
                      Some (case fst (updateStatus (world st')) of
                              None \<Rightarrow> Join (pruneErrors st')
                            | Some updateErr \<Rightarrow>
                                Errorf ''failed to update status after prune errors: %w''
                                  [ArgError updateErr])),
                     p\<lparr>children := newChildren st', result := loopResult st'\<rparr>,
                     snd (updateStatus (world st')))"
proof -
  let ?d = "desiredRefs p" and ?g = "lastAppliedGen p"
  let ?st1 = "st\<lparr>pruneErrors := pruneErrors st @ [handledErr],
                  newChildren := newChildren st @ [e], world := w2\<rparr>"
  have step: "pruneChild k p ?d ?g st e = Some ?st1"
    using nodry stale obj del hdl
    by (simp add: pruneChild_def deleteResource_def Let_def)
  from pruneLoop_total [OF objectFromReference_scheme [OF obj]]
  obtain st' where rest: "pruneLoop k p ?d ?g ?st1 ys = Some st'" by blast
  from pruneLoop_grows [OF rest] obtain zs es
    where zs: "newChildren st' = newChildren ?st1 @ zs"
      and es: "pruneErrors st' = pruneErrors ?st1 @ es" by blast
  have herr: "handledErr \<in> set (pruneErrors st')" and kept: "e \<in> set (newChildren st')"
    by (simp_all add: zs es)
  have loop: "pruneLoop k p ?d ?g
                \<lparr>pruneErrors = [], newChildren = [], loopResult = result p, world = w\<rparr>
                (children p) = Some st'"
    using pruneLoop_at [OF reach step, of ys] rest by (simp add: split)
  from herr have ne: "pruneErrors st' \<noteq> []" by auto
  from Prune_advanced [OF adv loop, of updateStatus] ne rest herr kept
  show ?thesis by auto
qed

theorem Prune_handler_error_retains_witness:
  "lastAppliedGen (secondReconcile forbiddenClient
       [managedChild (deploymentRef ''x'' ''u1'') 1, managedChild (deploymentRef ''y'' ''u2'') 1]
       [] [deployment ''y'' ''u2'']) <s 2
   \<and> Prune fakeImports
        (secondReconcile forbiddenClient
           [managedChild (deploymentRef ''x'' ''u1'') 1, managedChild (deploymentRef ''y'' ''u2'') 1]
           [] [deployment ''y'' ''u2''])
        statusOk [''x'', ''y'']
      = Some ((\<lparr>Pruned = [], Skipped = []\<rparr>,
               Some (Join [Errorf ''failed to delete %s: %w''
                             [ArgObjectKey ''default'' ''x'', ArgError (Opaque ''Forbidden'')]])),
              (secondReconcile forbiddenClient
                 [managedChild (deploymentRef ''x'' ''u1'') 1,
                  managedChild (deploymentRef ''y'' ''u2'') 1]
                 [] [deployment ''y'' ''u2''])
                \<lparr>children := [managedChild (deploymentRef ''x'' ''u1'') 1,
                               managedChild (deploymentRef ''y'' ''u2'') 2],
                 result := \<lparr>Pruned = [], Skipped = []\<rparr>\<rparr>,
              [''x'', ''y''])"
proof -
  let ?p = "secondReconcile forbiddenClient
       [managedChild (deploymentRef ''x'' ''u1'') 1, managedChild (deploymentRef ''y'' ''u2'') 1]
       [] [deployment ''y'' ''u2'']"
  let ?e = "managedChild (deploymentRef ''x'' ''u1'') 1"
  let ?obj = "deployment ''x'' ''''"
  let ?st = "\<lparr>pruneErrors = [], newChildren = [], loopResult = result ?p,
              world = [''x'', ''y'']\<rparr>"
  let ?herr = "Errorf ''failed to delete %s: %w''
                 [ArgObjectKey ''default'' ''x'', ArgError (Opaque ''Forbidden'')]"
  have fields: "lastAppliedGen ?p = 1" "GetGeneration (owner ?p) = 2" "\<not> dryRun ?p"
    "children ?p = [] @ ?e # [managedChild (deploymentRef ''y'' ''u2'') 2]"
    "desiredRefs ?p = {''apps/v1/Deployment/default/y''}"
    "result ?p = \<lparr>Pruned = [], Skipped = []\<rparr>"
    "client ?p = forbiddenClient" "errorHandler ?p = defaultErrorHandler"
    "scheme ?p = Some setupScheme"
    by (simp_all add: session_defs prune_defs fixture_defs)
  have adv: "lastAppliedGen ?p <s GetGeneration (owner ?p)"
    unfolding fields by (simp add: word_sless_alt)
  have stale: "makeRefKey (ObjectReference ?e) \<notin> desiredRefs ?p"
    "\<not> lastAppliedGen ?p <s ObservedGeneration ?e"
    unfolding fields by (simp_all add: makeRefKey_def fixture_defs word_sless_alt)
  have obj: "objectFromReference fakeImports ?p (ObjectReference ?e) = Some (Inr ?obj)"
    unfolding objectFromReference_def fields by (simp add: fixture_defs)
  have reach: "pruneLoop fakeImports ?p (desiredRefs ?p) (lastAppliedGen ?p)
                 \<lparr>pruneErrors = [], newChildren = [], loopResult = result ?p,
                  world = [''x'', ''y'']\<rparr> [] = Some ?st"
    by simp
  have del: "Delete (client ?p) ?obj (world ?st) = (Some (Opaque ''Forbidden''), [''x'', ''y''])"
    "\<not> IsNotFound fakeImports (Opaque ''Forbidden'')"
    unfolding fields by (simp_all add: fixture_defs)
  have hdl: "errorHandler ?p (Opaque ''Forbidden'') ?obj [''x'', ''y''] = (Some ?herr, [''x'', ''y''])"
    unfolding fields by (simp add: defaultErrorHandler_def fixture_defs)
  from Prune_handler_error_retains
         [OF adv fields(3) fields(4) stale obj reach del hdl, of statusOk]
  obtain st' where
    rest: "pruneLoop fakeImports ?p (desiredRefs ?p) (lastAppliedGen ?p)
             (?st\<lparr>pruneErrors := pruneErrors ?st @ [?herr],
                  newChildren := newChildren ?st @ [?e],
                  world := [''x'', ''y'']\<rparr>)
             [managedChild (deploymentRef ''y'' ''u2'') 2] = Some st'"
    and res: "Prune fakeImports ?p statusOk [''x'', ''y''] =
               Some ((loopResult st',
                      Some (case fst (statusOk (world st')) of
                              None \<Rightarrow> Join (pruneErrors st')
                            | Some updateErr \<Rightarrow>
                                Errorf ''failed to update status after prune errors: %w''
                                  [ArgError updateErr])),
                     ?p\<lparr>children := newChildren st', result := loopResult st'\<rparr>,
                     snd (statusOk (world st')))"
    by blast
  from rest have st': "st' = \<lparr>pruneErrors = [?herr],
       newChildren = [?e, managedChild (deploymentRef ''y'' ''u2'') 2],
       loopResult = \<lparr>Pruned = [], Skipped = []\<rparr>, world = [''x'', ''y'']\<rparr>"
    unfolding fields pruneLoop.simps pruneChild_def
    by (simp add: makeRefKey_def fixture_defs)
  have "lastAppliedGen ?p <s 2"
    unfolding fields by (simp add: word_sless_alt)
  with res show ?thesis
    unfolding st' by (simp add: statusOk_def)
qed

text \<open>
  C4 as stated fails when the status callback fails after pruning errors: the error that
  \<open>Prune\<close> returns is the failure of the callback, which does not wrap the accumulated
  deletion error.
\<close>

theorem Prune_handler_error_counterexample:
  "map_option fst
     (pruneStaleResources fakeImports
        (secondReconcile forbiddenClient [managedChild (deploymentRef ''x'' ''u1'') 1] [] [])
        [managedChild (deploymentRef ''x'' ''u1'') 1] {} 1 \<lparr>Pruned = [], Skipped = []\<rparr> [''x''])
     = Some [Errorf ''failed to delete %s: %w''
               [ArgObjectKey ''default'' ''x'', ArgError (Opaque ''Forbidden'')]]
   \<and> map_option (snd \<circ> fst)
        (Prune fakeImports
           (secondReconcile forbiddenClient [managedChild (deploymentRef ''x'' ''u1'') 1] [] [])
           statusConflict [''x''])
     = Some (Some (Errorf ''failed to update status after prune errors: %w''
                     [ArgError (Opaque ''Conflict'')]))
   \<and> Errorf ''failed to delete %s: %w''
         [ArgObjectKey ''default'' ''x'', ArgError (Opaque ''Forbidden'')]
       \<notin> wrapped (Errorf ''failed to update status after prune errors: %w''
                     [ArgError (Opaque ''Conflict'')])"
  by (simp add: session_defs prune_defs fixture_defs)

lemma pruneChild_Pruned_grows:
  assumes "pruneChild k p d g st e = Some st1"
  shows "\<exists>rs. Pruned (loopResult st1) = Pruned (loopResult st) @ rs"
  using assms
  by (auto simp: pruneChild_def Let_def split: if_splits option.splits sum.splits prod.splits)

lemma pruneLoop_Pruned_grows:
  assumes "pruneLoop k p d g st cs = Some st'"
  shows "\<exists>rs. Pruned (loopResult st') = Pruned (loopResult st) @ rs"
  using assms
proof (induction cs arbitrary: st)
  case Nil
  then show ?case by simp
next
  case (Cons e cs)
  from Cons.prems obtain st1 where st1: "pruneChild k p d g st e = Some st1"
    and rest: "pruneLoop k p d g st1 cs = Some st'"
    by (auto split: option.splits)
  from pruneChild_Pruned_grows [OF st1] Cons.IH [OF rest] show ?case by auto
qed

lemma objectFromReference_cong:
  "scheme q = scheme p \<Longrightarrow> objectFromReference k q ref = objectFromReference k p ref"
  by (simp add: objectFromReference_def Let_def split: sum.splits)

text \<open>
  C8. With the generation advanced and dry-run off, take a stale entry \<open>e\<close> of the ledger for
  which \<^verbatim>\<open>client.Delete\<close> reports not-found. The iteration for \<open>e\<close> records its reference as
  pruned and does nothing else: no error is added, \<open>e\<close> is not put into the new ledger, and
  the world is the one the deletion left, whatever the error handler is, so the handler
  did not run. \<open>Prune\<close> returns with the reference in the pruned list and a ledger that is
  a subsequence of the old one without \<open>e\<close>.
\<close>

theorem Prune_not_found_is_pruned:
  assumes adv: "lastAppliedGen p <s GetGeneration (owner p)"
    and nodry: "\<not> dryRun p"
    and split: "children p = xs @ e # ys"
    and stale: "makeRefKey (ObjectReference e) \<notin> desiredRefs p"
               "\<not> lastAppliedGen p <s ObservedGeneration e"
    and obj: "objectFromReference k p (ObjectReference e) = Some (Inr obj)"
    and reach: "pruneLoop k p (desiredRefs p) (lastAppliedGen p)
                  \<lparr>pruneErrors = [], newChildren = [], loopResult = result p, world = w\<rparr> xs
                = Some st"
    and del: "Delete (client p) obj (world st) = (Some err, w1)" "IsNotFound k err"
  shows "pruneChild k (p\<lparr>errorHandler := h\<rparr>) (desiredRefs p) (lastAppliedGen p) st e =
           Some (st\<lparr>loopResult := (loopResult st)
                       \<lparr>Pruned := Pruned (loopResult st) @
                                    [formatObjectReference (ObjectReference e)]\<rparr>,
                     world := w1\<rparr>)
       \<and> pruneChild k p (desiredRefs p) (lastAppliedGen p) st e =
           Some (st\<lparr>loopResult := (loopResult st)
                       \<lparr>Pruned := Pruned (loopResult st) @
                                    [formatObjectReference (ObjectReference e)]\<rparr>,
                     world := w1\<rparr>)
       \<and> (\<exists>st'. pruneLoop k p (desiredRefs p) (lastAppliedGen p)
                 (st\<lparr>loopResult := (loopResult st)
                       \<lparr>Pruned := Pruned (loopResult st) @
                                    [formatObjectReference (ObjectReference e)]\<rparr>,
                     world := w1\<rparr>) ys = Some st'
             \<and> map_option (fst \<circ> fst) (Prune k p updateStatus w) = Some (loopResult st')
             \<and> map_option (children \<circ> fst \<circ> snd) (Prune k p updateStatus w)
                 = Some (newChildren st')
             \<and> formatObjectReference (ObjectReference e) \<in> set (Pruned (loopResult st'))
             \<and> subseq (newChildren st') (xs @ ys))"
proof (intro conjI)
  let ?d = "desiredRefs p" and ?g = "lastAppliedGen p"
  let ?st1 = "st\<lparr>loopResult := (loopResult st)
                       \<lparr>Pruned := Pruned (loopResult st) @
                                    [formatObjectReference (ObjectReference e)]\<rparr>,
                  world := w1\<rparr>"
  have obj': "objectFromReference k (p\<lparr>errorHandler := h\<rparr>) (ObjectReference e) = Some (Inr obj)"
    using obj objectFromReference_cong [of "p\<lparr>errorHandler := h\<rparr>" p k] by simp
  show "pruneChild k (p\<lparr>errorHandler := h\<rparr>) ?d ?g st e = Some ?st1"
    using nodry stale obj' del
    by (simp add: pruneChild_def deleteResource_def Let_def)
  show step: "pruneChild k p ?d ?g st e = Some ?st1"
    using nodry stale obj del
    by (simp add: pruneChild_def deleteResource_def Let_def)
  from pruneLoop_total [OF objectFromReference_scheme [OF obj]]
  obtain st' where rest: "pruneLoop k p ?d ?g ?st1 ys = Some st'" by blast
  have loop: "pruneLoop k p ?d ?g
                \<lparr>pruneErrors = [], newChildren = [], loopResult = result p, world = w\<rparr>
                (children p) = Some st'"
    using pruneLoop_at [OF reach step, of ys] rest by (simp add: split)
  from pruneLoop_grows [OF reach] obtain zs1 where zs1: "newChildren st = zs1" "subseq zs1 xs"
    by auto
  from pruneLoop_grows [OF rest] obtain zs2
    where zs2: "newChildren st' = newChildren st @ zs2" "subseq zs2 ys"
    by auto
  have sub: "subseq (newChildren st') (xs @ ys)"
    using zs1 zs2 by (auto intro: list_emb_append_mono)
  have pr: "formatObjectReference (ObjectReference e) \<in> set (Pruned (loopResult st'))"
    using pruneLoop_Pruned_grows [OF rest] by auto
  show "\<exists>st'. pruneLoop k p ?d ?g ?st1 ys = Some st'
             \<and> map_option (fst \<circ> fst) (Prune k p updateStatus w) = Some (loopResult st')
             \<and> map_option (children \<circ> fst \<circ> snd) (Prune k p updateStatus w)
                 = Some (newChildren st')
             \<and> formatObjectReference (ObjectReference e) \<in> set (Pruned (loopResult st'))
             \<and> subseq (newChildren st') (xs @ ys)"
    using rest sub pr Prune_advanced [OF adv loop, of updateStatus]
    by (intro exI [of _ st']) simp
qed

theorem Prune_not_found_is_pruned_witness:
  "lastAppliedGen (secondReconcile fakeClient [managedChild (deploymentRef ''x'' ''u1'') 1] [] [])
     <s GetGeneration (owner (secondReconcile fakeClient
                                [managedChild (deploymentRef ''x'' ''u1'') 1] [] []))
   \<and> Delete fakeClient (deployment ''x'' '''') [] = (Some (Opaque ''NotFound''), [])
   \<and> IsNotFound fakeImports (Opaque ''NotFound'')
   \<and> map_option fst
        (Prune fakeImports
           (secondReconcile fakeClient [managedChild (deploymentRef ''x'' ''u1'') 1] [] [])
           statusOk [])
      = Some (\<lparr>Pruned = [''Deployment default/x''], Skipped = []\<rparr>, None)
   \<and> map_option (children \<circ> fst \<circ> snd)
        (Prune fakeImports
           (secondReconcile fakeClient [managedChild (deploymentRef ''x'' ''u1'') 1] [] [])
           statusOk [])
      = Some []"
proof -
  let ?p = "secondReconcile fakeClient [managedChild (deploymentRef ''x'' ''u1'') 1] [] []"
  let ?e = "managedChild (deploymentRef ''x'' ''u1'') 1"
  let ?obj = "deployment ''x'' ''''"
  let ?st = "\<lparr>pruneErrors = [], newChildren = [], loopResult = result ?p,
              world = ([] :: string list)\<rparr>"
  have fields: "lastAppliedGen ?p = 1" "GetGeneration (owner ?p) = 2" "\<not> dryRun ?p"
    "children ?p = [] @ ?e # []"
    "desiredRefs ?p = {}"
    "result ?p = \<lparr>Pruned = [], Skipped = []\<rparr>"
    "client ?p = fakeClient"
    "scheme ?p = Some setupScheme"
    by (simp_all add: session_defs prune_defs fixture_defs)
  have adv: "lastAppliedGen ?p <s GetGeneration (owner ?p)"
    unfolding fields by (simp add: word_sless_alt)
  have stale: "makeRefKey (ObjectReference ?e) \<notin> desiredRefs ?p"
    "\<not> lastAppliedGen ?p <s ObservedGeneration ?e"
    unfolding fields by (simp_all add: fixture_defs word_sless_alt)
  have obj: "objectFromReference fakeImports ?p (ObjectReference ?e) = Some (Inr ?obj)"
    unfolding objectFromReference_def fields by (simp add: fixture_defs)
  have reach: "pruneLoop fakeImports ?p (desiredRefs ?p) (lastAppliedGen ?p)
                 \<lparr>pruneErrors = [], newChildren = [], loopResult = result ?p,
                  world = []\<rparr> [] = Some ?st"
    by simp
  have del0: "Delete fakeClient ?obj [] = (Some (Opaque ''NotFound''), [])"
    and nf: "IsNotFound fakeImports (Opaque ''NotFound'')"
    by (simp_all add: fixture_defs)
  have del: "Delete (client ?p) ?obj (world ?st) = (Some (Opaque ''NotFound''), [])"
    unfolding fields using del0 by simp
  from Prune_not_found_is_pruned
         [OF adv fields(3) fields(4) stale obj reach del nf, of defaultErrorHandler statusOk]
  obtain st' where
    rest: "pruneLoop fakeImports ?p (desiredRefs ?p) (lastAppliedGen ?p)
             (?st\<lparr>loopResult := (loopResult ?st)
                       \<lparr>Pruned := Pruned (loopResult ?st) @
                                    [formatObjectReference (ObjectReference ?e)]\<rparr>,
                  world := []\<rparr>) [] = Some st'"
    and res: "map_option (fst \<circ> fst) (Prune fakeImports ?p statusOk []) = Some (loopResult st')"
    and cs: "map_option (children \<circ> fst \<circ> snd) (Prune fakeImports ?p statusOk [])
               = Some (newChildren st')"
    and sub: "subseq (newChildren st') ([] @ [])"
    by blast
  from sub have nil: "newChildren st' = []" by simp
  have err: "map_option fst (Prune fakeImports ?p statusOk [])
      = Some (\<lparr>Pruned = [''Deployment default/x''], Skipped = []\<rparr>, None)"
    by (simp add: session_defs prune_defs fixture_defs)
  from adv del0 nf err cs nil show ?thesis by simp
qed



subsection \<open>Dry-run\<close>

lemma pruneChild_dryRun:
  assumes "dryRun p" and "pruneChild k p d g st e = Some st1"
  shows "world st1 = world st
       \<and> Pruned (loopResult st1) = Pruned (loopResult st)
       \<and> newChildren st1 = newChildren st @
            filter (\<lambda>e. makeRefKey (ObjectReference e) \<in> d \<or> g <s ObservedGeneration e) [e]
       \<and> Skipped (loopResult st1) = Skipped (loopResult st) @
            map (formatObjectReference \<circ> ObjectReference)
              (filter (\<lambda>e. \<not> (makeRefKey (ObjectReference e) \<in> d \<or> g <s ObservedGeneration e)
                           \<and> resolvable k p e) [e])"
  using assms
  by (auto simp: pruneChild_def resolvable_def Let_def
           split: if_splits option.splits sum.splits)

lemma pruneLoop_dryRun:
  assumes "dryRun p" and "pruneLoop k p d g st cs = Some st'"
  shows "world st' = world st
       \<and> Pruned (loopResult st') = Pruned (loopResult st)
       \<and> newChildren st' = newChildren st @
            filter (\<lambda>e. makeRefKey (ObjectReference e) \<in> d \<or> g <s ObservedGeneration e) cs
       \<and> Skipped (loopResult st') = Skipped (loopResult st) @
            map (formatObjectReference \<circ> ObjectReference)
              (filter (\<lambda>e. \<not> (makeRefKey (ObjectReference e) \<in> d \<or> g <s ObservedGeneration e)
                           \<and> resolvable k p e) cs)"
  using assms(2)
proof (induction cs arbitrary: st)
  case Nil
  then show ?case by simp
next
  case (Cons e cs)
  from Cons.prems obtain st1 where st1: "pruneChild k p d g st e = Some st1"
    and rest: "pruneLoop k p d g st1 cs = Some st'"
    by (auto split: option.splits)
  from pruneChild_dryRun [OF assms(1) st1] Cons.IH [OF rest]
  show ?case by simp
qed

text \<open>
  What a dry-run \<open>Prune\<close> over an advanced generation does whenever it returns: the world is
  touched by the status callback alone, nothing is recorded as pruned, every stale entry
  with a resolvable reference is recorded as skipped, and the ledger keeps the desired and
  the fresh entries only.
\<close>

lemma Prune_dryRun:
  assumes dry: "dryRun p"
    and adv: "lastAppliedGen p <s GetGeneration (owner p)"
    and ret: "Prune k p updateStatus w = Some ((res, err), p', w')"
  shows "w' = snd (updateStatus w)
       \<and> Pruned res = Pruned (result p)
       \<and> Skipped res = Skipped (result p) @
            map (formatObjectReference \<circ> ObjectReference)
              (filter (\<lambda>e. \<not> (makeRefKey (ObjectReference e) \<in> desiredRefs p
                               \<or> lastAppliedGen p <s ObservedGeneration e)
                           \<and> resolvable k p e) (children p))
       \<and> children p' =
            filter (\<lambda>e. makeRefKey (ObjectReference e) \<in> desiredRefs p
                       \<or> lastAppliedGen p <s ObservedGeneration e) (children p)"
proof -
  from adv ret obtain st' where loop: "pruneLoop k p (desiredRefs p) (lastAppliedGen p)
      \<lparr>pruneErrors = [], newChildren = [], loopResult = result p, world = w\<rparr> (children p) = Some st'"
    by (auto simp: Prune_def pruneStaleResources_def split: option.splits)
  from Prune_advanced [OF adv loop, of updateStatus] ret
  have res: "res = loopResult st'" and cs: "children p' = newChildren st'"
    and w': "w' = snd (updateStatus (world st'))"
    by simp_all
  from pruneLoop_dryRun [OF dry loop] show ?thesis
    by (simp add: res cs w')
qed


end
